theory Spec2Isabelle
  imports Main "HOL-Library.Sublist"
begin

section \<open>The offline cache manager of the Daily Reminder app (sw.js)\<close>

text \<open>
  The worker script registers listeners for the install, activate and fetch events and
  resolves every intercepted GET request through one of two async functions,
  \<open>handleDocumentRequest\<close> and \<open>handleAssetRequest\<close>. The script is written against three
  capabilities of the hosting platform: the cache storage (\<open>caches.open\<close>, \<open>caches.match\<close>,
  \<open>caches.keys\<close>, \<open>caches.delete\<close>, \<open>cache.addAll\<close>, \<open>cache.put\<close>), the network (\<open>fetch\<close>)
  and the worker's own lifecycle calls (\<open>skipWaiting\<close>, \<open>clients.claim\<close>).

  The embedding threads a \<open>world\<close> (the cache storage and a trace of every effect) through
  each function. A promise is the pair of its settled value (\<open>Inl\<close> a rejection, \<open>Inr\<close> a
  fulfilment) and the world after it settled; \<open>await\<close> inside \<open>try\<close> is a case split whose
  \<open>Inl\<close> branch enters the \<open>catch\<close> block. What the platform answers is an \<open>env\<close>: the
  response (or the rejection) of the network for each request, and the set of cache
  storage operations that reject.

  Tasks run one after the other. A promise that the script starts and does not await
  (\<open>cache.put\<close>) has its effect on the storage, and its rejection reaches nobody. URLs are
  compared as written: a request for an asset of the manifest carries the string of the
  manifest as its URL.
\<close>

subsection \<open>Requests, responses and the cache storage\<close>

record request =
  "method" :: string
  url :: string
  destination :: string

record response =
  status :: nat
  statusText :: string
  headers :: "(string \<times> string) list"
  body :: string

text \<open>A cache entry is keyed by the request's method and URL.\<close>

type_synonym key = "string \<times> string"

type_synonym cache = "(key \<times> response) list"

datatype operation =
    OpMatch key
  | OpOpen string
  | OpPut string key
  | OpAddAll string
  | OpKeys
  | OpDelete string

datatype error = NetworkFailure | BadStatus | StorageFailure operation

datatype event =
    Log string
  | LogError string error
  | Called operation
  | Fetched key
  | SkipWaiting
  | ClientsClaim

record env =
  network :: "request \<Rightarrow> response option"
  faults :: "operation \<Rightarrow> bool"

text \<open>
  \<open>stores\<close> is the cache storage: the namespaces in creation order, each with its entries.
  \<open>trace\<close> records, in order, every console message, every cache storage call, every
  network fetch and every lifecycle call.
\<close>

record world =
  stores :: "(string \<times> cache) list"
  trace :: "event list"

definition emit :: "event \<Rightarrow> world \<Rightarrow> world" where
  "emit ev s = s\<lparr>trace := trace s @ [ev]\<rparr>"

definition request_key :: "request \<Rightarrow> key" where
  "request_key r = (method r, url r)"

text \<open>\<open>new Request(u)\<close>, as \<open>caches.match\<close> and \<open>cache.addAll\<close> build it from a string.\<close>

definition GET_request :: "string \<Rightarrow> request" where
  "GET_request u = \<lparr>method = ''GET'', url = u, destination = ''''\<rparr>"

text \<open>\<open>response.ok\<close>: the status is in the range 200 to 299.\<close>

definition ok :: "response \<Rightarrow> bool" where
  "ok r \<longleftrightarrow> 200 \<le> status r \<and> status r \<le> 299"

definition content_type :: "response \<Rightarrow> string option" where
  "content_type r = map_of (headers r) ''Content-Type''"

text \<open>
  \<open>new Response(body, {status, statusText, headers})\<close> with a string body: a body given
  without a content type gets the platform's default for text.
\<close>

definition new_Response :: "string \<Rightarrow> nat \<Rightarrow> string \<Rightarrow> (string \<times> string) list \<Rightarrow> response" where
  "new_Response b st txt hs =
     \<lparr>status = st, statusText = txt,
      headers = (if map_of hs ''Content-Type'' = None
                 then hs @ [(''Content-Type'', ''text/plain;charset=UTF-8'')] else hs),
      body = b\<rparr>"

text \<open>\<open>cache.match\<close> of one cache: only a GET request matches an entry.\<close>

definition cache_lookup :: "key \<Rightarrow> cache \<Rightarrow> response option" where
  "cache_lookup k c = (if fst k = ''GET'' then map_of c k else None)"

text \<open>\<open>caches.match\<close> asks every namespace in creation order and takes the first hit.\<close>

fun first_match :: "key \<Rightarrow> (string \<times> cache) list \<Rightarrow> response option" where
  "first_match k [] = None"
| "first_match k ((n, c) # rest) =
     (case cache_lookup k c of Some r \<Rightarrow> Some r | None \<Rightarrow> first_match k rest)"

text \<open>The lookup of one entry under one namespace.\<close>

definition ns_match :: "string \<Rightarrow> key \<Rightarrow> (string \<times> cache) list \<Rightarrow> response option" where
  "ns_match name k ss = (case map_of ss name of None \<Rightarrow> None | Some c \<Rightarrow> cache_lookup k c)"

text \<open>A write replaces the entry of the same key.\<close>

definition put_entry :: "key \<Rightarrow> response \<Rightarrow> cache \<Rightarrow> cache" where
  "put_entry k r c = filter (\<lambda>kv. fst kv \<noteq> k) c @ [(k, r)]"

fun put_entries :: "(key \<times> response) list \<Rightarrow> cache \<Rightarrow> cache" where
  "put_entries [] c = c"
| "put_entries ((k, r) # rest) c = put_entries rest (put_entry k r c)"

definition update_store :: "string \<Rightarrow> (cache \<Rightarrow> cache) \<Rightarrow> (string \<times> cache) list \<Rightarrow> (string \<times> cache) list" where
  "update_store name f ss = map (\<lambda>nc. if fst nc = name then (fst nc, f (snd nc)) else nc) ss"

definition caches_match :: "env \<Rightarrow> key \<Rightarrow> world \<Rightarrow> (error + response option) \<times> world" where
  "caches_match e k s =
     (let s1 = emit (Called (OpMatch k)) s
      in if faults e (OpMatch k) then (Inl (StorageFailure (OpMatch k)), s1)
         else (Inr (first_match k (stores s1)), s1))"

definition caches_open :: "env \<Rightarrow> string \<Rightarrow> world \<Rightarrow> (error + string) \<times> world" where
  "caches_open e name s =
     (let s1 = emit (Called (OpOpen name)) s
      in if faults e (OpOpen name) then (Inl (StorageFailure (OpOpen name)), s1)
         else if name \<in> set (map fst (stores s1)) then (Inr name, s1)
         else (Inr name, s1\<lparr>stores := stores s1 @ [(name, [])]\<rparr>))"

definition cache_put :: "env \<Rightarrow> string \<Rightarrow> key \<Rightarrow> response \<Rightarrow> world \<Rightarrow> (error + unit) \<times> world" where
  "cache_put e name k r s =
     (let s1 = emit (Called (OpPut name k)) s
      in if faults e (OpPut name k) then (Inl (StorageFailure (OpPut name k)), s1)
         else (Inr (), s1\<lparr>stores := update_store name (put_entry k r) (stores s1)\<rparr>))"

definition caches_keys :: "env \<Rightarrow> world \<Rightarrow> (error + string list) \<times> world" where
  "caches_keys e s =
     (let s1 = emit (Called OpKeys) s
      in if faults e OpKeys then (Inl (StorageFailure OpKeys), s1)
         else (Inr (map fst (stores s1)), s1))"

text \<open>\<open>caches.delete\<close> fulfils with whether the namespace existed.\<close>

definition caches_delete :: "env \<Rightarrow> string \<Rightarrow> world \<Rightarrow> (error + bool) \<times> world" where
  "caches_delete e name s =
     (let s1 = emit (Called (OpDelete name)) s
      in if faults e (OpDelete name) then (Inl (StorageFailure (OpDelete name)), s1)
         else (Inr (name \<in> set (map fst (stores s1))),
               s1\<lparr>stores := filter (\<lambda>nc. fst nc \<noteq> name) (stores s1)\<rparr>))"

definition fetch :: "env \<Rightarrow> request \<Rightarrow> world \<Rightarrow> (error + response) \<times> world" where
  "fetch e req s =
     (let s1 = emit (Fetched (request_key req)) s
      in case network e req of
           None \<Rightarrow> (Inl NetworkFailure, s1)
         | Some r \<Rightarrow> (Inr r, s1))"

text \<open>
  \<open>cache.addAll\<close> fetches every URL and stores the responses only when every fetch
  fulfilled with an ok response other than a partial one (status 206); otherwise it
  rejects and stores nothing.
\<close>

definition addAll_accepts :: "response \<Rightarrow> bool" where
  "addAll_accepts r \<longleftrightarrow> ok r \<and> status r \<noteq> 206"

definition cache_addAll :: "env \<Rightarrow> string \<Rightarrow> string list \<Rightarrow> world \<Rightarrow> (error + unit) \<times> world" where
  "cache_addAll e name urls s =
     (let s1 = emit (Called (OpAddAll name)) s;
          s2 = s1\<lparr>trace := trace s1 @ map (\<lambda>u. Fetched (''GET'', u)) urls\<rparr>
      in if faults e (OpAddAll name) then (Inl (StorageFailure (OpAddAll name)), s2)
         else case those (map (\<lambda>u. network e (GET_request u)) urls) of
                None \<Rightarrow> (Inl NetworkFailure, s2)
              | Some rs \<Rightarrow>
                  if list_all addAll_accepts rs
                  then (Inr (), s2\<lparr>stores := update_store name
                                     (put_entries (zip (map (\<lambda>u. (''GET'', u)) urls) rs)) (stores s2)\<rparr>)
                  else (Inl BadStatus, s2))"

text \<open>
  \<open>Promise.all\<close>: fulfilled with every value when every promise fulfilled, rejected with
  a rejection otherwise. Every promise of the list has been started before.
\<close>

fun promise_all :: "(error + 'a) list \<Rightarrow> error + 'a list" where
  "promise_all [] = Inr []"
| "promise_all (Inl err # rest) = Inl err"
| "promise_all (Inr v # rest) = (case promise_all rest of Inl err \<Rightarrow> Inl err | Inr vs \<Rightarrow> Inr (v # vs))"

text \<open>\<open>String.prototype.includes\<close>.\<close>

fun str_includes :: "string \<Rightarrow> string \<Rightarrow> bool" where
  "str_includes [] sub = (sub = [])"
| "str_includes (c # cs) sub = (prefix sub (c # cs) \<or> str_includes cs sub)"

subsection \<open>The worker script\<close>

definition CACHE_NAME :: string where
  "CACHE_NAME = ''daily-reminder-v1''"

definition STATIC_CACHE_URLS :: "string list" where
  "STATIC_CACHE_URLS = [''./'', ''./index.html'', ''./styles.css'', ''./script.js'', ''./manifest.json'']"

text \<open>
  The install listener hands \<open>event.waitUntil\<close> the promise of the chain
  \<open>caches.open(...).then(addAll).then(skipWaiting).catch(log)\<close>. \<open>install_chain\<close> is the
  chain before its \<open>catch\<close>; \<open>install_listener\<close> returns the settled value of the promise
  that \<open>waitUntil\<close> receives.
\<close>

definition install_chain :: "env \<Rightarrow> world \<Rightarrow> (error + unit) \<times> world" where
  "install_chain e s =
     (case caches_open e CACHE_NAME s of
        (Inl err, s1) \<Rightarrow> (Inl err, s1)
      | (Inr cache, s1) \<Rightarrow>
          (case cache_addAll e cache STATIC_CACHE_URLS
                  (emit (Log ''Service Worker: Caching static assets'') s1) of
             (Inl err, s2) \<Rightarrow> (Inl err, s2)
           | (Inr u, s2) \<Rightarrow>
               (Inr (), emit SkipWaiting (emit (Log ''Service Worker: Installation complete'') s2))))"

definition install_listener :: "env \<Rightarrow> world \<Rightarrow> (error + unit) \<times> world" where
  "install_listener e s =
     (case install_chain e (emit (Log ''Service Worker: Installing...'') s) of
        (Inl err, s1) \<Rightarrow> (Inr (), emit (LogError ''Service Worker: Installation failed'' err) s1)
      | (Inr u, s1) \<Rightarrow> (Inr (), s1))"

text \<open>
  The callback that the activate listener maps over the namespace names: a call of
  \<open>caches.delete\<close> for every name other than the current one, \<open>undefined\<close> (here \<open>None\<close>)
  for the current one.
\<close>

fun purge :: "env \<Rightarrow> string list \<Rightarrow> world \<Rightarrow> (error + bool option) list \<times> world" where
  "purge e [] s = ([], s)"
| "purge e (cacheName # rest) s =
     (if cacheName \<noteq> CACHE_NAME
      then (case caches_delete e cacheName
                   (emit (Log (''Service Worker: Deleting old cache '' @ cacheName)) s) of
              (r, s1) \<Rightarrow> (case purge e rest s1 of (rs, s2) \<Rightarrow> (map_sum id Some r # rs, s2)))
      else (case purge e rest s of (rs, s2) \<Rightarrow> (Inr None # rs, s2)))"

definition activate_listener :: "env \<Rightarrow> world \<Rightarrow> (error + unit) \<times> world" where
  "activate_listener e s =
     (case caches_keys e (emit (Log ''Service Worker: Activating...'') s) of
        (Inl err, s1) \<Rightarrow> (Inl err, s1)
      | (Inr cacheNames, s1) \<Rightarrow>
          (case purge e cacheNames s1 of
             (rs, s2) \<Rightarrow>
               (case promise_all rs of
                  Inl err \<Rightarrow> (Inl err, s2)
                | Inr vs \<Rightarrow>
                    (Inr (), emit ClientsClaim
                               (emit (Log ''Service Worker: Activation complete'') s2)))))"

text \<open>The body of the last-resort page; the heading starts with a character outside ASCII,
  given by its UTF-8 bytes.\<close>

definition offline_page_body :: string where
  \<open>offline_page_body = concat [
    ''<!DOCTYPE html>\<newline>'',
    ''            <html>\<newline>'',
    ''            <head>\<newline>'',
    ''                <title>Daily Reminder - Offline</title>\<newline>'',
    ''                <meta charset="UTF-8">\<newline>'',
    ''                <meta name="viewport" content="width=device-width, initial-scale=1.0">\<newline>'',
    ''                <style>\<newline>'',
    ''                    body {\<newline>'',
    ''                        font-family: -apple-system, BlinkMacSystemFont, 'Segoe UI', sans-serif;\<newline>'',
    ''                        margin: 0;\<newline>'',
    ''                        padding: 2rem;\<newline>'',
    ''                        background: #f8f9fa;\<newline>'',
    ''                        color: #2c3e50;\<newline>'',
    ''                        text-align: center;\<newline>'',
    ''                    }\<newline>'',
    ''                    .offline-message {\<newline>'',
    ''                        max-width: 400px;\<newline>'',
    ''                        margin: 4rem auto;\<newline>'',
    ''                        padding: 2rem;\<newline>'',
    ''                        background: white;\<newline>'',
    ''                        border-radius: 8px;\<newline>'',
    ''                        box-shadow: 0 2px 10px rgba(0,0,0,0.1);\<newline>'',
    ''                    }\<newline>'',
    ''                    h1 { color: #dc3545; margin-bottom: 1rem; }\<newline>'',
    ''                    p { line-height: 1.6; margin-bottom: 1rem; }\<newline>'',
    ''                    button {\<newline>'',
    ''                        background: #007bff;\<newline>'',
    ''                        color: white;\<newline>'',
    ''                        border: none;\<newline>'',
    ''                        padding: 0.75rem 1.5rem;\<newline>'',
    ''                        border-radius: 4px;\<newline>'',
    ''                        cursor: pointer;\<newline>'',
    ''                        font-size: 1rem;\<newline>'',
    ''                    }\<newline>'',
    ''                    button:hover { background: #0056b3; }\<newline>'',
    ''                </style>\<newline>'',
    ''            </head>\<newline>'',
    ''            <body>\<newline>'',
    ''                <div class="offline-message">\<newline>'',
    ''                    <h1>'' @ [CHR 0xF0, CHR 0x9F, CHR 0x93, CHR 0x9D] @ '' Daily Reminder</h1>\<newline>'',
    ''                    <h2>You're Offline</h2>\<newline>'',
    ''                    <p>The app couldn't load properly. Please check your internet connection and try again.</p>\<newline>'',
    ''                    <button onclick="window.location.reload()">Retry</button>\<newline>'',
    ''                </div>\<newline>'',
    ''            </body>\<newline>'',
    ''            </html>'']\<close>

definition offline_page :: response where
  "offline_page = new_Response offline_page_body 200 '''' [(''Content-Type'', ''text/html'')]"

text \<open>
  \<open>handleDocumentRequest\<close>: the \<open>try\<close> block, then the \<open>catch\<close> block on any rejection
  awaited inside it. \<open>cache.put\<close> is not awaited: its effect on the storage happens, its
  rejection reaches nobody.
\<close>

definition document_try :: "env \<Rightarrow> request \<Rightarrow> world \<Rightarrow> (error + response) \<times> world" where
  "document_try e request s =
     (case caches_match e (request_key request) s of
        (Inl err, s1) \<Rightarrow> (Inl err, s1)
      | (Inr (Some cachedResponse), s1) \<Rightarrow>
          (Inr cachedResponse, emit (Log ''Service Worker: Serving document from cache'') s1)
      | (Inr None, s1) \<Rightarrow>
          (case fetch e request s1 of
             (Inl err, s2) \<Rightarrow> (Inl err, s2)
           | (Inr networkResponse, s2) \<Rightarrow>
               (case caches_open e CACHE_NAME s2 of
                  (Inl err, s3) \<Rightarrow> (Inl err, s3)
                | (Inr cache, s3) \<Rightarrow>
                    (Inr networkResponse,
                     emit (Log ''Service Worker: Serving document from network and caching'')
                       (snd (cache_put e cache (request_key request) networkResponse s3))))))"

definition document_catch :: "env \<Rightarrow> error \<Rightarrow> world \<Rightarrow> (error + response) \<times> world" where
  "document_catch e err s =
     (case caches_match e (''GET'', ''./index.html'')
             (emit (LogError ''Service Worker: Document request failed'' err) s) of
        (Inl err2, s1) \<Rightarrow> (Inl err2, s1)
      | (Inr (Some offlineResponse), s1) \<Rightarrow> (Inr offlineResponse, s1)
      | (Inr None, s1) \<Rightarrow> (Inr offline_page, s1))"

definition handleDocumentRequest :: "env \<Rightarrow> request \<Rightarrow> world \<Rightarrow> (error + response) \<times> world" where
  "handleDocumentRequest e request s =
     (case document_try e request s of
        (Inl err, s1) \<Rightarrow> document_catch e err s1
      | (Inr r, s1) \<Rightarrow> (Inr r, s1))"

definition css_fallback :: response where
  "css_fallback = new_Response ''/* Offline fallback styles */'' 200 '''' [(''Content-Type'', ''text/css'')]"

definition js_fallback :: response where
  \<open>js_fallback =
     new_Response ''// Offline fallback script\<newline>console.log("App running in offline mode");''
       200 '''' [(''Content-Type'', ''application/javascript'')]\<close>

definition not_found_fallback :: response where
  "not_found_fallback = new_Response ''Asset not available offline'' 404 ''Not Found'' []"

definition asset_try :: "env \<Rightarrow> request \<Rightarrow> world \<Rightarrow> (error + response) \<times> world" where
  "asset_try e request s =
     (case caches_match e (request_key request) s of
        (Inl err, s1) \<Rightarrow> (Inl err, s1)
      | (Inr (Some cachedResponse), s1) \<Rightarrow>
          (Inr cachedResponse, emit (Log ''Service Worker: Serving asset from cache'') s1)
      | (Inr None, s1) \<Rightarrow>
          (case fetch e request s1 of
             (Inl err, s2) \<Rightarrow> (Inl err, s2)
           | (Inr networkResponse, s2) \<Rightarrow>
               (case caches_open e CACHE_NAME s2 of
                  (Inl err, s3) \<Rightarrow> (Inl err, s3)
                | (Inr cache, s3) \<Rightarrow>
                    (Inr networkResponse,
                     emit (Log ''Service Worker: Serving asset from network and caching'')
                       (snd (cache_put e cache (request_key request) networkResponse s3))))))"

definition asset_catch :: "request \<Rightarrow> error \<Rightarrow> world \<Rightarrow> (error + response) \<times> world" where
  "asset_catch request err s =
     (let s1 = emit (LogError ''Service Worker: Asset request failed'' err) s
      in if str_includes (url request) ''.css'' then (Inr css_fallback, s1)
         else if str_includes (url request) ''.js'' then (Inr js_fallback, s1)
         else (Inr not_found_fallback, s1))"

definition handleAssetRequest :: "env \<Rightarrow> request \<Rightarrow> world \<Rightarrow> (error + response) \<times> world" where
  "handleAssetRequest e request s =
     (case asset_try e request s of
        (Inl err, s1) \<Rightarrow> asset_catch request err s1
      | (Inr r, s1) \<Rightarrow> (Inr r, s1))"

text \<open>
  The fetch listener: \<open>None\<close> when it returns without calling \<open>event.respondWith\<close> (the
  request goes on to the network untouched), otherwise the promise given to
  \<open>respondWith\<close>.
\<close>

definition fetch_listener :: "env \<Rightarrow> request \<Rightarrow> world \<Rightarrow> (error + response) option \<times> world" where
  "fetch_listener e request s =
     (if method request \<noteq> ''GET'' then (None, s)
      else if destination request = ''document''
      then (case handleDocumentRequest e request s of (r, s1) \<Rightarrow> (Some r, s1))
      else (case handleAssetRequest e request s of (r, s1) \<Rightarrow> (Some r, s1)))"

subsection \<open>Observations\<close>

text \<open>The number of network fetches made so far.\<close>

fun is_fetch :: "event \<Rightarrow> bool" where
  "is_fetch (Fetched k) = True"
| "is_fetch ev = False"

definition fetch_calls :: "world \<Rightarrow> nat" where
  "fetch_calls s = length (filter is_fetch (trace s))"

text \<open>\<open>caches.keys()\<close> on a storage without fault: the names of the existing namespaces.\<close>

definition listNamespaces :: "world \<Rightarrow> string list" where
  "listNamespaces s = map fst (stores s)"

text \<open>The GET-only invariant of the cache storage: every stored key has the method GET.\<close>

definition get_only :: "(string \<times> cache) list \<Rightarrow> bool" where
  "get_only ss = list_all (\<lambda>nc. list_all (\<lambda>kv. fst (fst kv) = ''GET'') (snd nc)) ss"

text \<open>
  The install event as the hosting platform settles it: an instance whose \<open>waitUntil\<close>
  promise rejected is discarded and the previous version keeps serving; an instance whose
  promise fulfilled is installed and waits for its promotion.
\<close>

datatype LifecycleState = Installing | Waiting | Active | Redundant

definition after_install :: "error + unit \<Rightarrow> LifecycleState" where
  "after_install settled = (case settled of Inl err \<Rightarrow> Redundant | Inr u \<Rightarrow> Waiting)"

text \<open>
  The install went through: the chain before its \<open>catch\<close> fulfilled, that is, the
  namespace was opened, \<open>addAll\<close> fulfilled, ``Installation complete'' was logged and
  \<open>skipWaiting\<close> was called.
\<close>

definition install_succeeded :: "env \<Rightarrow> world \<Rightarrow> bool" where
  "install_succeeded e s \<longleftrightarrow>
     fst (install_chain e (emit (Log ''Service Worker: Installing...'') s)) = Inr ()"

text \<open>The events that the purge of the activate listener adds to the trace.\<close>

fun purge_events :: "string list \<Rightarrow> event list" where
  "purge_events [] = []"
| "purge_events (cacheName # rest) =
     (if cacheName \<noteq> CACHE_NAME
      then [Log (''Service Worker: Deleting old cache '' @ cacheName), Called (OpDelete cacheName)]
      else []) @ purge_events rest"

subsection \<open>Example environments and worlds\<close>

definition empty_world :: world where
  "empty_world = \<lparr>stores = [], trace = []\<rparr>"

text \<open>No network, a healthy cache storage.\<close>

definition offline_env :: env where
  "offline_env = \<lparr>network = (\<lambda>req. None), faults = (\<lambda>opn. False)\<rparr>"

text \<open>A network that serves every URL with status 200, and a healthy cache storage.\<close>

definition served :: "string \<Rightarrow> response" where
  "served u = \<lparr>status = 200, statusText = ''OK'', headers = [], body = u\<rparr>"

definition online_env :: env where
  "online_env = \<lparr>network = (\<lambda>req. Some (served (url req))), faults = (\<lambda>opn. False)\<rparr>"

definition styles_request :: request where
  "styles_request = \<lparr>method = ''GET'', url = ''./styles.css'', destination = ''style''\<rparr>"

definition post_request :: request where
  "post_request = \<lparr>method = ''POST'', url = ''./index.html'', destination = ''document''\<rparr>"

text \<open>A storage whose current namespace holds the style sheet.\<close>

definition cached_world :: world where
  "cached_world =
     \<lparr>stores = [(CACHE_NAME, [((''GET'', ''./styles.css''), served ''./styles.css'')])], trace = []\<rparr>"

text \<open>An image whose name contains the extension of a style sheet.\<close>

definition logo_request :: request where
  "logo_request = \<lparr>method = ''GET'', url = ''./logo.css.png'', destination = ''image''\<rparr>"

definition manifest_request :: request where
  "manifest_request = \<lparr>method = ''GET'', url = ''./manifest.json'', destination = ''manifest''\<rparr>"

definition index_request :: request where
  "index_request = \<lparr>method = ''GET'', url = ''./index.html'', destination = ''document''\<rparr>"

text \<open>No network, and a cache storage whose every lookup rejects.\<close>

fun is_match :: "operation \<Rightarrow> bool" where
  "is_match (OpMatch k) = True"
| "is_match opn = False"

definition storage_down_env :: env where
  "storage_down_env = \<lparr>network = (\<lambda>req. None), faults = is_match\<rparr>"

text \<open>A network that answers every request with status 404.\<close>

definition missing_response :: response where
  "missing_response = \<lparr>status = 404, statusText = ''Not Found'', headers = [], body = ''no such file''\<rparr>"

definition notfound_env :: env where
  "notfound_env = \<lparr>network = (\<lambda>req. Some missing_response), faults = (\<lambda>opn. False)\<rparr>"

text \<open>The same network, and a cache storage that rejects every write of an entry.\<close>

fun is_put :: "operation \<Rightarrow> bool" where
  "is_put (OpPut name k) = True"
| "is_put opn = False"

definition put_fault_env :: env where
  "put_fault_env = \<lparr>network = (\<lambda>req. Some missing_response), faults = is_put\<rparr>"

text \<open>A network on which one asset of the manifest cannot be fetched.\<close>

definition styles_down_env :: env where
  "styles_down_env =
     \<lparr>network = (\<lambda>req. if url req = ''./styles.css'' then None else Some (served (url req))),
      faults = (\<lambda>opn. False)\<rparr>"

text \<open>A storage after a version bump: two namespaces of older versions and the current one.\<close>

definition upgraded_world :: world where
  "upgraded_world =
     \<lparr>stores = [(''daily-reminder-v0'', [((''GET'', ''./''), served ''old'')]),
                (''notes-cache'', []),
                (CACHE_NAME, [((''GET'', ''./''), served ''new'')])],
      trace = []\<rparr>"

text \<open>A cache storage that cannot delete one of the stale namespaces.\<close>

definition delete_fault_env :: env where
  "delete_fault_env =
     \<lparr>network = (\<lambda>req. None), faults = (\<lambda>opn. opn = OpDelete ''daily-reminder-v0'')\<rparr>"

section \<open>Properties\<close>

subsection \<open>Basic facts about the platform operations\<close>

lemma stores_emit: "stores (emit ev s) = stores s"
  by (simp add: emit_def)

lemma trace_emit: "trace (emit ev s) = trace s @ [ev]"
  by (simp add: emit_def)

lemma fetch_calls_emit: "fetch_calls (emit ev s) = fetch_calls s + (if is_fetch ev then 1 else 0)"
  by (simp add: fetch_calls_def emit_def)

lemma caches_match_hit:
  "\<not> faults e (OpMatch k) \<Longrightarrow>
   caches_match e k s = (Inr (first_match k (stores s)), emit (Called (OpMatch k)) s)"
  by (simp add: caches_match_def Let_def stores_emit)

lemma caches_match_fault:
  "faults e (OpMatch k) \<Longrightarrow>
   caches_match e k s = (Inl (StorageFailure (OpMatch k)), emit (Called (OpMatch k)) s)"
  by (simp add: caches_match_def Let_def)

lemma document_try_hit:
  assumes "first_match (request_key request) (stores s) = Some r"
    and "\<not> faults e (OpMatch (request_key request))"
  shows "document_try e request s =
    (Inr r, emit (Log ''Service Worker: Serving document from cache'')
              (emit (Called (OpMatch (request_key request))) s))"
  using assms by (simp add: document_try_def caches_match_hit)

lemma asset_try_hit:
  assumes "first_match (request_key request) (stores s) = Some r"
    and "\<not> faults e (OpMatch (request_key request))"
  shows "asset_try e request s =
    (Inr r, emit (Log ''Service Worker: Serving asset from cache'')
              (emit (Called (OpMatch (request_key request))) s))"
  using assms by (simp add: asset_try_def caches_match_hit)

lemma handleDocumentRequest_hit:
  assumes "first_match (request_key request) (stores s) = Some r"
    and "\<not> faults e (OpMatch (request_key request))"
  shows "handleDocumentRequest e request s =
    (Inr r, emit (Log ''Service Worker: Serving document from cache'')
              (emit (Called (OpMatch (request_key request))) s))"
  using assms by (simp add: handleDocumentRequest_def document_try_hit)

lemma handleAssetRequest_hit:
  assumes "first_match (request_key request) (stores s) = Some r"
    and "\<not> faults e (OpMatch (request_key request))"
  shows "handleAssetRequest e request s =
    (Inr r, emit (Log ''Service Worker: Serving asset from cache'')
              (emit (Called (OpMatch (request_key request))) s))"
  using assms by (simp add: handleAssetRequest_def asset_try_hit)

lemma str_includes_iff: "str_includes s sub \<longleftrightarrow> (\<exists>pre post. s = pre @ sub @ post)"
proof (induction s)
  case Nil
  then show ?case by auto
next
  case (Cons c cs)
  show ?case
  proof
    assume "str_includes (c # cs) sub"
    then consider "prefix sub (c # cs)" | "str_includes cs sub" by auto
    then show "\<exists>pre post. c # cs = pre @ sub @ post"
    proof cases
      case 1
      then obtain post where "c # cs = sub @ post" by (auto simp: prefix_def)
      then have "c # cs = [] @ sub @ post" by simp
      then show ?thesis by blast
    next
      case 2
      then obtain pre post where "cs = pre @ sub @ post" using Cons.IH by auto
      then have "c # cs = (c # pre) @ sub @ post" by simp
      then show ?thesis by blast
    qed
  next
    assume "\<exists>pre post. c # cs = pre @ sub @ post"
    then obtain pre post where eq: "c # cs = pre @ sub @ post" by auto
    show "str_includes (c # cs) sub"
    proof (cases pre)
      case Nil
      then have "prefix sub (c # cs)" using eq by (simp add: prefix_def)
      then show ?thesis by simp
    next
      case (Cons p pre')
      then have "cs = pre' @ sub @ post" using eq by simp
      then have "str_includes cs sub" using Cons.IH by blast
      then show ?thesis by simp
    qed
  qed
qed

subsection \<open>Cache hits\<close>

text \<open>
  Claim C7. A request that is present in the cache storage is answered by both
  resolution functions with the stored response, after exactly one cache lookup and one
  console message: no network fetch is made and nothing is written. Resolving the same
  request a second time, in the world the first resolution left, returns the same
  response, and the number of network fetches is still what it was before the first.
\<close>

theorem cached_request_served_from_cache:
  assumes "first_match (request_key request) (stores s) = Some r"
    and "\<not> faults e (OpMatch (request_key request))"
  shows "(\<forall>handler \<in> {handleDocumentRequest, handleAssetRequest}.
            fst (handler e request s) = Inr r
          \<and> fst (handler e request (snd (handler e request s))) = Inr r
          \<and> fetch_calls (snd (handler e request s)) = fetch_calls s
          \<and> fetch_calls (snd (handler e request (snd (handler e request s)))) = fetch_calls s
          \<and> stores (snd (handler e request (snd (handler e request s)))) = stores s)
       \<and> trace (snd (handleDocumentRequest e request s)) =
           trace s @ [Called (OpMatch (request_key request)),
                      Log ''Service Worker: Serving document from cache'']
       \<and> trace (snd (handleAssetRequest e request s)) =
           trace s @ [Called (OpMatch (request_key request)),
                      Log ''Service Worker: Serving asset from cache'']"
proof -
  let ?k = "request_key request"
  let ?d = "emit (Log ''Service Worker: Serving document from cache'') (emit (Called (OpMatch ?k)) s)"
  let ?a = "emit (Log ''Service Worker: Serving asset from cache'') (emit (Called (OpMatch ?k)) s)"
  have d1: "handleDocumentRequest e request s = (Inr r, ?d)"
    using assms by (rule handleDocumentRequest_hit)
  have a1: "handleAssetRequest e request s = (Inr r, ?a)"
    using assms by (rule handleAssetRequest_hit)
  have sd: "first_match ?k (stores ?d) = Some r" and sa: "first_match ?k (stores ?a) = Some r"
    using assms(1) by (simp_all add: stores_emit)
  have d2: "handleDocumentRequest e request ?d =
      (Inr r, emit (Log ''Service Worker: Serving document from cache'') (emit (Called (OpMatch ?k)) ?d))"
    using sd assms(2) by (rule handleDocumentRequest_hit)
  have a2: "handleAssetRequest e request ?a =
      (Inr r, emit (Log ''Service Worker: Serving asset from cache'') (emit (Called (OpMatch ?k)) ?a))"
    using sa assms(2) by (rule handleAssetRequest_hit)
  show ?thesis
    by (simp add: d1 a1 d2 a2 fetch_calls_emit stores_emit trace_emit)
qed


theorem cached_request_served_from_cache_witness:
  "first_match (request_key styles_request) (stores cached_world) = Some (served ''./styles.css'')
   \<and> \<not> faults online_env (OpMatch (request_key styles_request))
   \<and> fst (handleAssetRequest online_env styles_request cached_world) = Inr (served ''./styles.css'')
   \<and> fetch_calls (snd (handleAssetRequest online_env styles_request cached_world)) = 0"
proof -
  have h1: "first_match (request_key styles_request) (stores cached_world) = Some (served ''./styles.css'')"
    by (simp add: request_key_def styles_request_def cached_world_def cache_lookup_def)
  have h2: "\<not> faults online_env (OpMatch (request_key styles_request))"
    by (simp add: online_env_def)
  have "fetch_calls cached_world = 0"
    by (simp add: fetch_calls_def cached_world_def)
  with cached_request_served_from_cache [OF h1 h2] h1 h2 show ?thesis by simp
qed

subsection \<open>The GET-only invariant\<close>

lemma get_only_filter: "get_only ss \<Longrightarrow> get_only (filter P ss)"
  by (induction ss) (auto simp: get_only_def)

lemma get_only_append: "get_only (ss @ ts) \<longleftrightarrow> get_only ss \<and> get_only ts"
  by (simp add: get_only_def)

lemma get_only_update_store:
  assumes "get_only ss" and "\<And>c. list_all (\<lambda>kv. fst (fst kv) = ''GET'') c \<Longrightarrow> list_all (\<lambda>kv. fst (fst kv) = ''GET'') (f c)"
  shows "get_only (update_store name f ss)"
  using assms by (induction ss) (auto simp: get_only_def update_store_def)

lemma put_entry_GET:
  "list_all (\<lambda>kv. fst (fst kv) = ''GET'') c \<Longrightarrow> fst k = ''GET'' \<Longrightarrow>
   list_all (\<lambda>kv. fst (fst kv) = ''GET'') (put_entry k r c)"
  by (auto simp: put_entry_def list_all_iff)

lemma put_entries_GET:
  "list_all (\<lambda>kv. fst (fst kv) = ''GET'') c \<Longrightarrow> list_all (\<lambda>kv. fst (fst kv) = ''GET'') kvs \<Longrightarrow>
   list_all (\<lambda>kv. fst (fst kv) = ''GET'') (put_entries kvs c)"
  by (induction kvs c rule: put_entries.induct) (auto simp: put_entry_GET)


lemma get_only_caches_match:
  "caches_match e k s = (r, s1) \<Longrightarrow> get_only (stores s) \<Longrightarrow> get_only (stores s1)"
  by (auto simp: caches_match_def Let_def stores_emit split: if_splits)

lemma get_only_fetch:
  "fetch e req s = (r, s1) \<Longrightarrow> get_only (stores s) \<Longrightarrow> get_only (stores s1)"
  by (auto simp: fetch_def Let_def stores_emit split: option.splits)

lemma get_only_caches_open:
  "caches_open e name s = (r, s1) \<Longrightarrow> get_only (stores s) \<Longrightarrow> get_only (stores s1)"
  by (auto simp: caches_open_def Let_def stores_emit get_only_append split: if_splits)
     (simp add: get_only_def)

lemma get_only_cache_put:
  "get_only (stores s) \<Longrightarrow> fst k = ''GET'' \<Longrightarrow> get_only (stores (snd (cache_put e name k r s)))"
  by (simp add: cache_put_def Let_def stores_emit get_only_update_store put_entry_GET)

lemma get_only_caches_keys:
  "caches_keys e s = (r, s1) \<Longrightarrow> get_only (stores s) \<Longrightarrow> get_only (stores s1)"
  by (auto simp: caches_keys_def Let_def stores_emit split: if_splits)

lemma get_only_caches_delete:
  "caches_delete e name s = (r, s1) \<Longrightarrow> get_only (stores s) \<Longrightarrow> get_only (stores s1)"
  by (auto simp: caches_delete_def Let_def stores_emit get_only_filter split: if_splits)

lemma zip_keys_GET: "list_all (\<lambda>kv. fst (fst kv) = ''GET'') (zip (map (\<lambda>u. (''GET'', u)) urls) rs)"
  by (induction urls arbitrary: rs) (auto simp: zip_Cons1 split: list.splits)

lemma get_only_cache_addAll:
  "cache_addAll e name urls s = (r, s1) \<Longrightarrow> get_only (stores s) \<Longrightarrow> get_only (stores s1)"
  by (auto simp: cache_addAll_def Let_def stores_emit split: option.splits if_splits
        intro!: get_only_update_store put_entries_GET zip_keys_GET)

lemma get_only_document_try:
  assumes "document_try e request s = (r, s1)" and "get_only (stores s)" and "method request = ''GET''"
  shows "get_only (stores s1)"
proof -
  have k: "fst (request_key request) = ''GET''" using assms(3) by (simp add: request_key_def)
  show ?thesis
    using assms(1,2) k unfolding document_try_def
    by (auto simp: stores_emit split: prod.splits sum.splits option.splits
        dest!: get_only_caches_match get_only_fetch get_only_caches_open
        intro!: get_only_cache_put)
qed

lemma get_only_asset_try:
  assumes "asset_try e request s = (r, s1)" and "get_only (stores s)" and "method request = ''GET''"
  shows "get_only (stores s1)"
proof -
  have k: "fst (request_key request) = ''GET''" using assms(3) by (simp add: request_key_def)
  show ?thesis
    using assms(1,2) k unfolding asset_try_def
    by (auto simp: stores_emit split: prod.splits sum.splits option.splits
        dest!: get_only_caches_match get_only_fetch get_only_caches_open
        intro!: get_only_cache_put)
qed

lemma get_only_handleDocumentRequest:
  assumes "handleDocumentRequest e request s = (r, s1)" and "get_only (stores s)" and "method request = ''GET''"
  shows "get_only (stores s1)"
  using assms unfolding handleDocumentRequest_def document_catch_def
  by (auto simp: stores_emit split: prod.splits sum.splits option.splits
        dest!: get_only_document_try get_only_caches_match)

lemma get_only_handleAssetRequest:
  assumes "handleAssetRequest e request s = (r, s1)" and "get_only (stores s)" and "method request = ''GET''"
  shows "get_only (stores s1)"
  using assms unfolding handleAssetRequest_def asset_catch_def
  by (auto simp: stores_emit Let_def split: prod.splits sum.splits option.splits if_splits
        dest!: get_only_asset_try)

lemma get_only_fetch_listener:
  assumes "get_only (stores s)"
  shows "get_only (stores (snd (fetch_listener e request s)))"
  using assms unfolding fetch_listener_def
  by (auto split: prod.splits dest: get_only_handleDocumentRequest get_only_handleAssetRequest)

lemma get_only_install_listener:
  assumes "get_only (stores s)"
  shows "get_only (stores (snd (install_listener e s)))"
  using assms unfolding install_listener_def install_chain_def
  by (auto simp: stores_emit split: prod.splits sum.splits
        dest!: get_only_caches_open get_only_cache_addAll)

lemma get_only_purge:
  "purge e names s = (rs, s1) \<Longrightarrow> get_only (stores s) \<Longrightarrow> get_only (stores s1)"
proof (induction names arbitrary: s rs s1)
  case Nil
  then show ?case by simp
next
  case (Cons n names)
  show ?case
  proof (cases "n \<noteq> CACHE_NAME")
    case True
    obtain r sa where d: "caches_delete e n (emit (Log (''Service Worker: Deleting old cache '' @ n)) s) = (r, sa)"
      by (cases "caches_delete e n (emit (Log (''Service Worker: Deleting old cache '' @ n)) s)")
    obtain rs' sb where p: "purge e names sa = (rs', sb)" by (cases "purge e names sa")
    have "get_only (stores sa)" using get_only_caches_delete[OF d] Cons.prems(2) by (simp add: stores_emit)
    then have "get_only (stores sb)" using Cons.IH[OF p] by simp
    moreover have "s1 = sb" using Cons.prems(1) True d p by simp
    ultimately show ?thesis by simp
  next
    case False
    obtain rs' sb where p: "purge e names s = (rs', sb)" by (cases "purge e names s")
    have "get_only (stores sb)" using Cons.IH[OF p] Cons.prems(2) by simp
    moreover have "s1 = sb" using Cons.prems(1) False p by simp
    ultimately show ?thesis by simp
  qed
qed

lemma get_only_activate_listener:
  assumes "get_only (stores s)"
  shows "get_only (stores (snd (activate_listener e s)))"
  using assms unfolding activate_listener_def
  by (auto simp: stores_emit split: prod.splits sum.splits
        dest!: get_only_caches_keys get_only_purge)

text \<open>
  Claim C9. The fetch listener returns at once on a request whose method is not GET: it
  does not call \<open>respondWith\<close> and leaves the world as it was, so the cache storage is
  neither read nor written (the trace gains no event). With it, every listener of the
  worker keeps the invariant that all keys of the cache storage are GET requests.
\<close>

theorem non_GET_request_passes_through:
  "(method request \<noteq> ''GET'' \<longrightarrow> fetch_listener e request s = (None, s))
   \<and> (get_only (stores s) \<longrightarrow>
        get_only (stores (snd (fetch_listener e request s)))
      \<and> get_only (stores (snd (install_listener e s)))
      \<and> get_only (stores (snd (activate_listener e s))))"
proof -
  have "method request \<noteq> ''GET'' \<longrightarrow> fetch_listener e request s = (None, s)"
    by (simp add: fetch_listener_def)
  then show ?thesis
    using get_only_fetch_listener [of s e request] get_only_install_listener [of s e]
      get_only_activate_listener [of s e]
    by blast
qed

theorem non_GET_request_passes_through_witness:
  "method post_request \<noteq> ''GET''
   \<and> get_only (stores cached_world)
   \<and> fetch_listener online_env post_request cached_world = (None, cached_world)
   \<and> get_only (stores (snd (fetch_listener online_env styles_request cached_world)))"
proof -
  have h1: "method post_request \<noteq> ''GET''" by (simp add: post_request_def)
  have h2: "get_only (stores cached_world)" by (simp add: get_only_def cached_world_def)
  from non_GET_request_passes_through [where request = post_request and e = online_env and s = cached_world]
       non_GET_request_passes_through [where request = styles_request and e = online_env and s = cached_world]
       h1 h2 show ?thesis by simp
qed

subsection \<open>Total failure: neither the cache nor the network answers\<close>

lemma fetch_rejects:
  "network e req = None \<Longrightarrow> fetch e req s = (Inl NetworkFailure, emit (Fetched (request_key req)) s)"
  by (simp add: fetch_def)

lemma fetch_fulfils:
  "network e req = Some r \<Longrightarrow> fetch e req s = (Inr r, emit (Fetched (request_key req)) s)"
  by (simp add: fetch_def)

lemma asset_try_total_failure:
  assumes "faults e (OpMatch (request_key request)) \<or> first_match (request_key request) (stores s) = None"
    and "network e request = None"
  shows "\<exists>err s1. asset_try e request s = (Inl err, s1)"
proof (cases "faults e (OpMatch (request_key request))")
  case True
  then show ?thesis by (simp add: asset_try_def caches_match_fault)
next
  case False
  with assms(1) have "first_match (request_key request) (stores s) = None" by simp
  with False assms(2) show ?thesis
    by (simp add: asset_try_def caches_match_hit fetch_rejects)
qed

lemma document_try_total_failure:
  assumes "faults e (OpMatch (request_key request)) \<or> first_match (request_key request) (stores s) = None"
    and "network e request = None"
  shows "\<exists>err s1. document_try e request s = (Inl err, s1) \<and> stores s1 = stores s"
proof (cases "faults e (OpMatch (request_key request))")
  case True
  then show ?thesis by (simp add: document_try_def caches_match_fault stores_emit)
next
  case False
  with assms(1) have "first_match (request_key request) (stores s) = None" by simp
  with False assms(2) show ?thesis
    by (simp add: document_try_def caches_match_hit fetch_rejects stores_emit)
qed

lemma fst_asset_catch:
  "fst (asset_catch request err s) =
     Inr (if str_includes (url request) ''.css'' then css_fallback
          else if str_includes (url request) ''.js'' then js_fallback
          else not_found_fallback)"
  by (simp add: asset_catch_def Let_def)

lemma handleAssetRequest_total_failure:
  assumes "faults e (OpMatch (request_key request)) \<or> first_match (request_key request) (stores s) = None"
    and "network e request = None"
  shows "fst (handleAssetRequest e request s) =
     Inr (if str_includes (url request) ''.css'' then css_fallback
          else if str_includes (url request) ''.js'' then js_fallback
          else not_found_fallback)"
proof -
  obtain err s1 where "asset_try e request s = (Inl err, s1)"
    using asset_try_total_failure [OF assms] by blast
  then show ?thesis by (simp add: handleAssetRequest_def fst_asset_catch)
qed

lemma fallbacks_distinct:
  "css_fallback \<noteq> js_fallback" "not_found_fallback \<noteq> js_fallback"
  by (simp_all add: css_fallback_def js_fallback_def not_found_fallback_def new_Response_def)

text \<open>
  Claim C10. On total failure of a GET request routed to the asset policy (the cache
  lookup rejects or misses, and the network fetch rejects), the fallback is chosen by
  substring tests on the request's URL, the style sheet test first: a URL that contains
  \<open>.css\<close> anywhere gets the \<open>text/css\<close> fallback, also when the URL goes on after it or
  contains \<open>.js\<close> as well; the script fallback is returned exactly when the URL contains
  \<open>.js\<close> and does not contain \<open>.css\<close>.
\<close>

theorem asset_fallback_chosen_by_substring:
  assumes "method request = ''GET''" and "destination request \<noteq> ''document''"
    and "faults e (OpMatch (request_key request)) \<or> first_match (request_key request) (stores s) = None"
    and "network e request = None"
  shows "((\<exists>pre post. url request = pre @ ''.css'' @ post) \<longrightarrow>
            fst (fetch_listener e request s) = Some (Inr css_fallback))
       \<and> (fst (fetch_listener e request s) = Some (Inr js_fallback) \<longleftrightarrow>
            (\<exists>pre post. url request = pre @ ''.js'' @ post)
            \<and> \<not> (\<exists>pre post. url request = pre @ ''.css'' @ post))
       \<and> content_type css_fallback = Some ''text/css''
       \<and> content_type js_fallback = Some ''application/javascript''"
proof -
  have l: "fst (fetch_listener e request s) = Some (fst (handleAssetRequest e request s))"
    using assms(1,2) by (simp add: fetch_listener_def split: prod.splits)
  have t: "content_type css_fallback = Some ''text/css''"
      "content_type js_fallback = Some ''application/javascript''"
    by (simp_all add: content_type_def css_fallback_def js_fallback_def new_Response_def)
  show ?thesis
    unfolding l handleAssetRequest_total_failure [OF assms(3,4)] str_includes_iff [symmetric]
    using fallbacks_distinct t by auto
qed

theorem asset_fallback_chosen_by_substring_witness:
  "method logo_request = ''GET'' \<and> destination logo_request \<noteq> ''document''
   \<and> first_match (request_key logo_request) (stores empty_world) = None
   \<and> network offline_env logo_request = None
   \<and> url logo_request = ''./logo'' @ ''.css'' @ ''.png''
   \<and> fst (fetch_listener offline_env logo_request empty_world) = Some (Inr css_fallback)"
proof -
  have h1: "method logo_request = ''GET''" and h2: "destination logo_request \<noteq> ''document''"
    by (simp_all add: logo_request_def)
  have h3: "faults offline_env (OpMatch (request_key logo_request))
            \<or> first_match (request_key logo_request) (stores empty_world) = None"
    by (simp add: empty_world_def)
  have h4: "network offline_env logo_request = None" by (simp add: offline_env_def)
  have u: "url logo_request = ''./logo'' @ ''.css'' @ ''.png''" by (simp add: logo_request_def)
  from asset_fallback_chosen_by_substring [OF h1 h2 h3 h4] u
  have "fst (fetch_listener offline_env logo_request empty_world) = Some (Inr css_fallback)"
    by blast
  with h1 h2 h4 u show ?thesis by (simp add: empty_world_def)
qed

text \<open>
  Claim C8. On total failure the asset policy is to answer a style sheet with an empty
  style sheet, a script with a no-op script and any other asset with a 404 response.
  The request for \<open>./manifest.json\<close>, an asset of the worker's own manifest that is
  neither a style sheet nor a script, is answered with the no-op script, status 200
  and content type \<open>application/javascript\<close>: its URL contains \<open>.js\<close>.
\<close>

theorem manifest_json_gets_script_fallback:
  "fst (fetch_listener offline_env manifest_request empty_world) = Some (Inr js_fallback)
   \<and> \<not> suffix ''.css'' (url manifest_request) \<and> \<not> suffix ''.js'' (url manifest_request)
   \<and> status js_fallback = 200
   \<and> content_type js_fallback = Some ''application/javascript''"
  by (simp add: fetch_listener_def handleAssetRequest_def asset_try_def asset_catch_def
      caches_match_def fetch_def emit_def Let_def offline_env_def manifest_request_def
      empty_world_def request_key_def js_fallback_def new_Response_def content_type_def
      suffix_def)


subsection \<open>Total failure of a document request\<close>

text \<open>The last-resort page has status 200, content type \<open>text/html\<close> and a body.\<close>

lemma offline_page_renderable:
  "ok offline_page \<and> status offline_page = 200
   \<and> content_type offline_page = Some ''text/html''
   \<and> body offline_page \<noteq> []"
proof -
  have "offline_page_body \<noteq> []"
    unfolding offline_page_body_def concat.simps by (rule notI) (simp only: append_is_Nil_conv list.distinct simp_thms)
  then show ?thesis
    by (simp add: offline_page_def new_Response_def ok_def content_type_def)
qed

text \<open>
  When the cache lookup rejects or misses and the network fetch rejects, and the lookup
  of the fallback document in the \<open>catch\<close> block does not reject, the document policy
  fulfils with the cached \<open>./index.html\<close> if there is one and with the last-resort page
  otherwise.
\<close>

lemma document_total_failure_recovered:
  assumes "faults e (OpMatch (request_key request)) \<or> first_match (request_key request) (stores s) = None"
    and "network e request = None"
    and "\<not> faults e (OpMatch (''GET'', ''./index.html''))"
  shows "fst (handleDocumentRequest e request s) =
           Inr (case first_match (''GET'', ''./index.html'') (stores s) of
                  Some offlineResponse \<Rightarrow> offlineResponse
                | None \<Rightarrow> offline_page)"
proof -
  obtain err s1 where t: "document_try e request s = (Inl err, s1)" and s: "stores s1 = stores s"
    using document_try_total_failure [OF assms(1,2)] by blast
  show ?thesis
    using assms(3) s
    by (simp add: handleDocumentRequest_def t document_catch_def caches_match_hit stores_emit
        split: option.splits)
qed

text \<open>
  Claim C1. The document policy is to always fulfil with a renderable page when the
  cache lookup misses or fails and the network fetch fails, and never to reject. The
  lookup of the fallback document is awaited inside the \<open>catch\<close> block, outside any
  \<open>try\<close>: when the cache storage rejects its lookups and the network is down, the
  promise of \<open>handleDocumentRequest\<close> rejects, and the fetch listener hands that rejected
  promise to \<open>respondWith\<close>.
\<close>

theorem document_request_rejects_when_storage_is_down:
  "faults storage_down_env (OpMatch (request_key index_request))
   \<and> network storage_down_env index_request = None
   \<and> fst (handleDocumentRequest storage_down_env index_request empty_world)
       = Inl (StorageFailure (OpMatch (''GET'', ''./index.html'')))
   \<and> fst (fetch_listener storage_down_env index_request empty_world)
       = Some (Inl (StorageFailure (OpMatch (''GET'', ''./index.html''))))"
  by (simp add: fetch_listener_def handleDocumentRequest_def document_try_def document_catch_def
      caches_match_def emit_def Let_def storage_down_env_def index_request_def
      empty_world_def request_key_def)

subsection \<open>The network step: write-through\<close>

lemma map_of_update_store:
  "map_of (update_store name f ss) name = map_option f (map_of ss name)"
  by (induction ss) (auto simp: update_store_def)

lemma cache_lookup_put_entry:
  "fst k = ''GET'' \<Longrightarrow> cache_lookup k (put_entry k r c) = Some r"
proof -
  have "map_of (filter (\<lambda>kv. fst kv \<noteq> k) c) k = None"
    by (auto simp: map_of_eq_None_iff)
  then show "fst k = ''GET'' \<Longrightarrow> cache_lookup k (put_entry k r c) = Some r"
    by (simp add: cache_lookup_def put_entry_def map_add_def)
qed

lemma caches_open_ok:
  assumes "\<not> faults e (OpOpen name)"
  shows "\<exists>s1. caches_open e name s = (Inr name, s1) \<and> map_of (stores s1) name \<noteq> None
          \<and> (map_of (stores s) name \<noteq> None \<longrightarrow> stores s1 = stores s)"
proof (cases "name \<in> set (map fst (stores s))")
  case True
  then have "map_of (stores s) name \<noteq> None" by (simp add: map_of_eq_None_iff)
  with True assms show ?thesis by (simp add: caches_open_def Let_def stores_emit)
next
  case False
  then have "map_of (stores s) name = None" by (simp add: map_of_eq_None_iff)
  with False assms show ?thesis
    by (simp add: caches_open_def Let_def stores_emit emit_def map_add_def)
qed

lemma cache_put_ok:
  assumes "\<not> faults e (OpPut name k)" and "map_of (stores s) name \<noteq> None" and "fst k = ''GET''"
  shows "ns_match name k (stores (snd (cache_put e name k r s))) = Some r"
  using assms
  by (auto simp: cache_put_def Let_def stores_emit ns_match_def map_of_update_store
      cache_lookup_put_entry)

lemma try_network_write_through:
  assumes "method request = ''GET''"
    and "\<not> faults e (OpMatch (request_key request))"
    and "first_match (request_key request) (stores s) = None"
    and "network e request = Some r"
    and "\<not> faults e (OpOpen CACHE_NAME)"
  shows "fst (document_try e request s) = Inr r
       \<and> (\<not> faults e (OpPut CACHE_NAME (request_key request)) \<longrightarrow>
            ns_match CACHE_NAME (request_key request) (stores (snd (document_try e request s)))
              = Some r)"
    and "fst (asset_try e request s) = Inr r
       \<and> (\<not> faults e (OpPut CACHE_NAME (request_key request)) \<longrightarrow>
            ns_match CACHE_NAME (request_key request) (stores (snd (asset_try e request s)))
              = Some r)"
proof -
  let ?k = "request_key request"
  let ?s2 = "emit (Fetched ?k) (emit (Called (OpMatch ?k)) s)"
  have k: "fst ?k = ''GET''" using assms(1) by (simp add: request_key_def)
  obtain s3 where o: "caches_open e CACHE_NAME ?s2 = (Inr CACHE_NAME, s3)"
    and n: "map_of (stores s3) CACHE_NAME \<noteq> None"
    using caches_open_ok [OF assms(5)] by blast
  have p: "\<not> faults e (OpPut CACHE_NAME ?k) \<longrightarrow>
      ns_match CACHE_NAME ?k (stores (snd (cache_put e CACHE_NAME ?k r s3))) = Some r"
    using cache_put_ok [OF _ n k] by blast
  show "fst (document_try e request s) = Inr r
       \<and> (\<not> faults e (OpPut CACHE_NAME ?k) \<longrightarrow>
            ns_match CACHE_NAME ?k (stores (snd (document_try e request s))) = Some r)"
    using assms(2,3,4) o p
    by (simp add: document_try_def caches_match_hit fetch_fulfils stores_emit)
  show "fst (asset_try e request s) = Inr r
       \<and> (\<not> faults e (OpPut CACHE_NAME ?k) \<longrightarrow>
            ns_match CACHE_NAME ?k (stores (snd (asset_try e request s))) = Some r)"
    using assms(2,3,4) o p
    by (simp add: asset_try_def caches_match_hit fetch_fulfils stores_emit)
qed

text \<open>
  Claim C5 says that the network step stores a response only when it is ok, and that a
  response that is not ok goes to the failure path. Neither function looks at the
  status: with a network that answers 404, both return the 404 response as their result
  and write it into the current namespace.
\<close>

theorem non_ok_response_stored_counterexample:
  "\<not> ok missing_response
   \<and> fst (handleDocumentRequest notfound_env index_request empty_world) = Inr missing_response
   \<and> ns_match CACHE_NAME (request_key index_request)
        (stores (snd (handleDocumentRequest notfound_env index_request empty_world)))
       = Some missing_response
   \<and> fst (handleAssetRequest notfound_env styles_request empty_world) = Inr missing_response
   \<and> ns_match CACHE_NAME (request_key styles_request)
        (stores (snd (handleAssetRequest notfound_env styles_request empty_world)))
       = Some missing_response"
  by (simp add: handleDocumentRequest_def document_try_def handleAssetRequest_def asset_try_def
      caches_match_def fetch_def caches_open_def cache_put_def update_store_def put_entry_def
      ns_match_def cache_lookup_def emit_def Let_def notfound_env_def index_request_def
      styles_request_def empty_world_def request_key_def ok_def missing_response_def
      CACHE_NAME_def)

text \<open>
  Claim C5, amended. On a cache miss, whatever response the network fetch fulfils with,
  ok or not, is the result of both resolution functions, provided that opening the
  current namespace does not reject; this holds whether or not the write to the namespace
  then succeeds. When the write does not reject either, that response is stored in the
  current namespace under the request.
\<close>

theorem network_response_cached_whatever_its_status:
  assumes "method request = ''GET''"
    and "\<not> faults e (OpMatch (request_key request))"
    and "first_match (request_key request) (stores s) = None"
    and "network e request = Some r"
    and "\<not> faults e (OpOpen CACHE_NAME)"
  shows "\<forall>handler \<in> {handleDocumentRequest, handleAssetRequest}.
           fst (handler e request s) = Inr r
         \<and> (\<not> faults e (OpPut CACHE_NAME (request_key request)) \<longrightarrow>
              ns_match CACHE_NAME (request_key request) (stores (snd (handler e request s)))
                = Some r)"
proof -
  have d: "handleDocumentRequest e request s = document_try e request s"
    using try_network_write_through(1) [OF assms]
    by (cases "document_try e request s") (simp add: handleDocumentRequest_def)
  have a: "handleAssetRequest e request s = asset_try e request s"
    using try_network_write_through(2) [OF assms]
    by (cases "asset_try e request s") (simp add: handleAssetRequest_def)
  show ?thesis
    using try_network_write_through [OF assms] by (simp add: d a)
qed

theorem network_response_cached_whatever_its_status_witness:
  "method styles_request = ''GET''
   \<and> \<not> faults put_fault_env (OpMatch (request_key styles_request))
   \<and> first_match (request_key styles_request) (stores empty_world) = None
   \<and> network put_fault_env styles_request = Some missing_response
   \<and> network notfound_env styles_request = Some missing_response
   \<and> status missing_response = 404
   \<and> \<not> faults put_fault_env (OpOpen CACHE_NAME)
   \<and> faults put_fault_env (OpPut CACHE_NAME (request_key styles_request))
   \<and> fst (handleAssetRequest put_fault_env styles_request empty_world) = Inr missing_response
   \<and> \<not> faults notfound_env (OpPut CACHE_NAME (request_key styles_request))
   \<and> fst (handleAssetRequest notfound_env styles_request empty_world) = Inr missing_response
   \<and> ns_match CACHE_NAME (request_key styles_request)
        (stores (snd (handleAssetRequest notfound_env styles_request empty_world))) = Some missing_response"
proof -
  have h1: "method styles_request = ''GET''" by (simp add: styles_request_def)
  have h3: "first_match (request_key styles_request) (stores empty_world) = None"
    by (simp add: empty_world_def)
  have p2: "\<not> faults put_fault_env (OpMatch (request_key styles_request))"
    and p4: "network put_fault_env styles_request = Some missing_response"
    and p5: "\<not> faults put_fault_env (OpOpen CACHE_NAME)"
    and p6: "faults put_fault_env (OpPut CACHE_NAME (request_key styles_request))"
    by (simp_all add: put_fault_env_def)
  have n2: "\<not> faults notfound_env (OpMatch (request_key styles_request))"
    and n4: "network notfound_env styles_request = Some missing_response"
    and n5: "\<not> faults notfound_env (OpOpen CACHE_NAME)"
    and n6: "\<not> faults notfound_env (OpPut CACHE_NAME (request_key styles_request))"
    by (simp_all add: notfound_env_def)
  from network_response_cached_whatever_its_status [OF h1 p2 h3 p4 p5]
       network_response_cached_whatever_its_status [OF h1 n2 h3 n4 n5]
       h1 h3 p2 p4 p5 p6 n4 n6
  show ?thesis by (simp add: missing_response_def)
qed

subsection \<open>Install\<close>

lemma map_of_put_entry:
  "map_of (put_entry k' r c) k = (if k = k' then Some r else map_of c k)"
proof -
  have "map_of (filter (\<lambda>kv. fst kv \<noteq> k') c) k = (if k = k' then None else map_of c k)"
    by (induction c) auto
  then show ?thesis by (auto simp: put_entry_def map_add_def split: option.splits)
qed

lemma map_of_put_entries:
  "map_of (put_entries kvs c) k =
     (case map_of (rev kvs) k of Some v \<Rightarrow> Some v | None \<Rightarrow> map_of c k)"
  by (induction kvs c rule: put_entries.induct)
     (auto simp: map_of_put_entry map_add_def split: option.splits)

lemma those_map_Some:
  "those (map f us) = Some rs \<Longrightarrow> zip (map key us) rs = map (\<lambda>u. (key u, the (f u))) us
     \<and> (\<forall>u \<in> set us. f u = Some (the (f u))) \<and> set rs = (\<lambda>u. the (f u)) ` set us"
  by (induction us arbitrary: rs) (auto split: option.splits)

lemma map_of_keyed:
  "inj key \<Longrightarrow> u \<in> set us \<Longrightarrow> map_of (map (\<lambda>u. (key u, val u)) us) (key u) = Some (val u)"
  by (induction us) (auto dest: injD)

lemma cache_addAll_fulfilled:
  assumes "cache_addAll e name urls s = (Inr (), s1)" and "map_of (stores s) name \<noteq> None"
    and "u \<in> set urls"
  shows "\<exists>r. network e (GET_request u) = Some r \<and> addAll_accepts r
           \<and> ns_match name (''GET'', u) (stores s1) = Some r"
proof -
  let ?f = "\<lambda>u. network e (GET_request u)"
  let ?key = "\<lambda>u. (''GET'', u)"
  from assms(1) obtain rs where th: "those (map ?f urls) = Some rs"
    and acc: "list_all addAll_accepts rs"
    and st: "stores s1 = update_store name (put_entries (zip (map ?key urls) rs)) (stores s)"
    by (auto simp: cache_addAll_def Let_def stores_emit split: if_splits option.splits)
  note tm = those_map_Some [OF th, of ?key]
  have z: "zip (map ?key urls) rs = map (\<lambda>u. (?key u, the (?f u))) urls" using tm by simp
  have fu: "?f u = Some (the (?f u))" using tm assms(3) by blast
  have "the (?f u) \<in> set rs" using tm assms(3) by blast
  then have a: "addAll_accepts (the (?f u))" using acc by (simp add: list_all_iff)
  have "inj ?key" by (simp add: inj_on_def)
  then have "map_of (map (\<lambda>u. (?key u, the (?f u))) (rev urls)) (?key u) = Some (the (?f u))"
    using assms(3) by (intro map_of_keyed) simp_all
  then have "map_of (rev (zip (map ?key urls) rs)) (?key u) = Some (the (?f u))"
    by (simp add: z rev_map)
  then have "\<And>c. cache_lookup (?key u) (put_entries (zip (map ?key urls) rs) c) = Some (the (?f u))"
    by (simp add: cache_lookup_def map_of_put_entries)
  then have "ns_match name (?key u) (stores s1) = Some (the (?f u))"
    using assms(2) by (auto simp: ns_match_def st map_of_update_store)
  with fu a show ?thesis by metis
qed

lemma install_listener_always_fulfils: "fst (install_listener e s) = Inr ()"
  by (simp add: install_listener_def split: prod.splits sum.splits)

text \<open>
  Claim C3. After an install that went through, every asset of the manifest has a stored
  response under the current namespace: for every entry of \<open>STATIC_CACHE_URLS\<close> the
  lookup of its GET request in the namespace \<open>CACHE_NAME\<close> returns the response that the
  network gave for it, and that response is ok.
\<close>

theorem install_populates_manifest:
  assumes "install_succeeded e s"
  shows "\<forall>A \<in> set STATIC_CACHE_URLS.
           \<exists>r. network e (GET_request A) = Some r \<and> ok r
              \<and> ns_match CACHE_NAME (''GET'', A) (stores (snd (install_listener e s))) = Some r"
proof
  fix A assume A: "A \<in> set STATIC_CACHE_URLS"
  let ?s0 = "emit (Log ''Service Worker: Installing...'') s"
  obtain s3 where c: "install_chain e ?s0 = (Inr (), s3)"
    using assms by (cases "install_chain e ?s0") (simp add: install_succeeded_def)
  have l: "snd (install_listener e s) = s3" by (simp add: install_listener_def c)
  from c obtain s1 s2 where o: "caches_open e CACHE_NAME ?s0 = (Inr CACHE_NAME, s1)"
    and a: "cache_addAll e CACHE_NAME STATIC_CACHE_URLS
              (emit (Log ''Service Worker: Caching static assets'') s1) = (Inr (), s2)"
    and s3: "stores s3 = stores s2"
    by (auto simp: install_chain_def caches_open_def Let_def stores_emit
          split: prod.splits sum.splits if_splits)
  have "\<not> faults e (OpOpen CACHE_NAME)"
    using o by (auto simp: caches_open_def Let_def split: if_splits)
  from caches_open_ok [OF this, of ?s0] o have "map_of (stores s1) CACHE_NAME \<noteq> None" by auto
  then have "map_of (stores (emit (Log ''Service Worker: Caching static assets'') s1)) CACHE_NAME \<noteq> None"
    by (simp add: stores_emit)
  from cache_addAll_fulfilled [OF a this A]
  show "\<exists>r. network e (GET_request A) = Some r \<and> ok r
          \<and> ns_match CACHE_NAME (''GET'', A) (stores (snd (install_listener e s))) = Some r"
    by (auto simp: l s3 addAll_accepts_def)
qed

theorem install_populates_manifest_witness:
  "install_succeeded online_env empty_world
   \<and> ''./manifest.json'' \<in> set STATIC_CACHE_URLS
   \<and> ns_match CACHE_NAME (''GET'', ''./manifest.json'')
        (stores (snd (install_listener online_env empty_world))) = Some (served ''./manifest.json'')"
proof -
  have h: "install_succeeded online_env empty_world"
    by (simp add: install_succeeded_def install_chain_def caches_open_def cache_addAll_def
      emit_def Let_def online_env_def empty_world_def STATIC_CACHE_URLS_def GET_request_def
      addAll_accepts_def ok_def served_def)
  have m: "''./manifest.json'' \<in> set STATIC_CACHE_URLS" by (simp add: STATIC_CACHE_URLS_def)
  have n: "network online_env (GET_request ''./manifest.json'') = Some (served ''./manifest.json'')"
    by (simp add: online_env_def GET_request_def)
  from install_populates_manifest [OF h] m n show ?thesis using h by fastforce
qed

text \<open>
  Claim C4. When one asset of the manifest cannot be fetched, the install is to fail as
  a whole and the instance is not to reach the waiting state. With \<open>./styles.css\<close>
  unreachable, \<open>addAll\<close> rejects, nothing is stored and \<open>skipWaiting\<close> is not called; but the
  \<open>catch\<close> at the end of the chain logs ``Installation failed'' and returns, so the
  promise that \<open>waitUntil\<close> receives is fulfilled and the platform installs the instance,
  which then waits for promotion with an empty namespace.
\<close>

theorem failed_install_is_reported_as_fulfilled:
  "network styles_down_env (GET_request ''./styles.css'') = None
   \<and> \<not> install_succeeded styles_down_env empty_world
   \<and> fst (install_listener styles_down_env empty_world) = Inr ()
   \<and> after_install (fst (install_listener styles_down_env empty_world)) = Waiting
   \<and> stores (snd (install_listener styles_down_env empty_world)) = [(CACHE_NAME, [])]
   \<and> SkipWaiting \<notin> set (trace (snd (install_listener styles_down_env empty_world)))
   \<and> last (trace (snd (install_listener styles_down_env empty_world)))
       = LogError ''Service Worker: Installation failed'' NetworkFailure"
  by (simp add: install_succeeded_def install_listener_def install_chain_def caches_open_def
      cache_addAll_def emit_def Let_def styles_down_env_def empty_world_def
      STATIC_CACHE_URLS_def GET_request_def after_install_def)


subsection \<open>Activate\<close>

lemma caches_delete_eq:
  "caches_delete e name s =
     (if faults e (OpDelete name) then Inl (StorageFailure (OpDelete name))
      else Inr (name \<in> set (map fst (stores s))),
      \<lparr>stores = (if faults e (OpDelete name) then stores s
                 else filter (\<lambda>nc. fst nc \<noteq> name) (stores s)),
       trace = trace s @ [Called (OpDelete name)]\<rparr>)"
  by (simp add: caches_delete_def emit_def Let_def)

lemma stores_purge:
  "stores (snd (purge e names s)) =
     filter (\<lambda>nc. \<not> (fst nc \<in> set names \<and> fst nc \<noteq> CACHE_NAME \<and> \<not> faults e (OpDelete (fst nc))))
       (stores s)"
proof (induction names arbitrary: s)
  case Nil
  then show ?case by simp
next
  case (Cons n names)
  show ?case
  proof (cases "n \<noteq> CACHE_NAME")
    case True
    let ?s1 = "snd (caches_delete e n (emit (Log (''Service Worker: Deleting old cache '' @ n)) s))"
    have "stores (snd (purge e (n # names) s)) = stores (snd (purge e names ?s1))"
      using True by (simp split: prod.splits)
    also have "\<dots> = filter (\<lambda>nc. \<not> (fst nc \<in> set names \<and> fst nc \<noteq> CACHE_NAME
                          \<and> \<not> faults e (OpDelete (fst nc)))) (stores ?s1)"
      by (rule Cons.IH)
    also have "\<dots> = filter (\<lambda>nc. \<not> (fst nc \<in> set (n # names) \<and> fst nc \<noteq> CACHE_NAME
                          \<and> \<not> faults e (OpDelete (fst nc)))) (stores s)"
      using True by (auto simp: caches_delete_eq stores_emit intro!: filter_cong)
    finally show ?thesis .
  next
    case False
    have "stores (snd (purge e (n # names) s)) = stores (snd (purge e names s))"
      using False by (simp split: prod.splits)
    also have "\<dots> = filter (\<lambda>nc. \<not> (fst nc \<in> set names \<and> fst nc \<noteq> CACHE_NAME
                          \<and> \<not> faults e (OpDelete (fst nc)))) (stores s)"
      by (rule Cons.IH)
    also have "\<dots> = filter (\<lambda>nc. \<not> (fst nc \<in> set (n # names) \<and> fst nc \<noteq> CACHE_NAME
                          \<and> \<not> faults e (OpDelete (fst nc)))) (stores s)"
      using False by (auto intro!: filter_cong)
    finally show ?thesis .
  qed
qed

lemma trace_purge: "trace (snd (purge e names s)) = trace s @ purge_events names"
proof (induction names arbitrary: s)
  case Nil
  then show ?case by simp
next
  case (Cons n names)
  show ?case
  proof (cases "n \<noteq> CACHE_NAME")
    case True
    let ?s1 = "snd (caches_delete e n (emit (Log (''Service Worker: Deleting old cache '' @ n)) s))"
    have "trace (snd (purge e (n # names) s)) = trace (snd (purge e names ?s1))"
      using True by (simp split: prod.splits)
    also have "\<dots> = trace ?s1 @ purge_events names" by (rule Cons.IH)
    finally show ?thesis using True by (simp add: caches_delete_eq trace_emit)
  next
    case False
    have "trace (snd (purge e (n # names) s)) = trace (snd (purge e names s))"
      using False by (simp split: prod.splits)
    then show ?thesis using False Cons.IH by simp
  qed
qed

lemma purge_rejects_iff:
  "(\<exists>err. promise_all (fst (purge e names s)) = Inl err)
     \<longleftrightarrow> (\<exists>n \<in> set names. n \<noteq> CACHE_NAME \<and> faults e (OpDelete n))"
proof (induction names arbitrary: s)
  case Nil
  then show ?case by simp
next
  case (Cons n names)
  show ?case
  proof (cases "n \<noteq> CACHE_NAME")
    case True
    let ?s1 = "snd (caches_delete e n (emit (Log (''Service Worker: Deleting old cache '' @ n)) s))"
    show ?thesis
    proof (cases "faults e (OpDelete n)")
      case f: True
      then show ?thesis using True by (auto simp: caches_delete_eq split: prod.splits)
    next
      case f: False
      have "(\<exists>err. promise_all (fst (purge e (n # names) s)) = Inl err)
            \<longleftrightarrow> (\<exists>err. promise_all (fst (purge e names ?s1)) = Inl err)"
        using True f by (auto simp: caches_delete_eq split: prod.splits sum.splits)
      then show ?thesis using Cons.IH [of ?s1] True f by auto
    qed
  next
    case False
    have "(\<exists>err. promise_all (fst (purge e (n # names) s)) = Inl err)
            \<longleftrightarrow> (\<exists>err. promise_all (fst (purge e names s)) = Inl err)"
      using False by (auto split: prod.splits sum.splits)
    then show ?thesis using Cons.IH [of s] False by auto
  qed
qed

lemma activate_listener_eq:
  assumes "\<not> faults e OpKeys"
  shows "activate_listener e s =
    (let s1 = emit (Called OpKeys) (emit (Log ''Service Worker: Activating...'') s);
         p = purge e (listNamespaces s) s1
     in case promise_all (fst p) of
          Inl err \<Rightarrow> (Inl err, snd p)
        | Inr vs \<Rightarrow> (Inr (), emit ClientsClaim
                               (emit (Log ''Service Worker: Activation complete'') (snd p))))"
  using assms
  by (cases "purge e (map fst (stores s))
               (emit (Called OpKeys) (emit (Log ''Service Worker: Activating...'') s))")
     (simp add: activate_listener_def caches_keys_def Let_def stores_emit listNamespaces_def
        split: sum.splits)

lemma current_namespace_only:
  "n \<in> set (map fst ss) \<Longrightarrow> set (map fst (filter (\<lambda>nc. fst nc = n) ss)) = {n}"
  by (induction ss) auto

lemma current_namespace_single:
  "distinct (map fst ss) \<Longrightarrow> n \<in> set (map fst ss) \<Longrightarrow> map fst (filter (\<lambda>nc. fst nc = n) ss) = [n]"
proof (induction ss)
  case Nil
  then show ?case by simp
next
  case (Cons x ss)
  show ?case
  proof (cases "fst x = n")
    case True
    then have "n \<notin> fst ` set ss" using Cons.prems(1) by auto
    then have "filter (\<lambda>nc. fst nc = n) ss = []" by (auto simp: filter_empty_conv)
    then show ?thesis using True by simp
  next
    case False
    then show ?thesis using Cons by auto
  qed
qed

lemma map_of_filter_name:
  "map_of (filter (\<lambda>nc. fst nc = n) ss) n = map_of ss n"
  by (induction ss) auto

text \<open>
  Claim C2. When the storage holds the current namespace among others and the
  enumeration and the deletions do not fail, the activate listener fulfils and leaves
  exactly the current namespace: every namespace with another name is deleted, the
  current one is kept with its entries, and \<open>listNamespaces\<close> is the one-element list of
  the current name.
\<close>

theorem activate_keeps_only_current_namespace:
  assumes "CACHE_NAME \<in> set (listNamespaces s)"
    and "\<not> faults e OpKeys"
    and "\<forall>n \<in> set (listNamespaces s). \<not> faults e (OpDelete n)"
  shows "fst (activate_listener e s) = Inr ()
       \<and> set (listNamespaces (snd (activate_listener e s))) = {CACHE_NAME}
       \<and> (distinct (listNamespaces s) \<longrightarrow> listNamespaces (snd (activate_listener e s)) = [CACHE_NAME])
       \<and> stores (snd (activate_listener e s)) = filter (\<lambda>nc. fst nc = CACHE_NAME) (stores s)
       \<and> map_of (stores (snd (activate_listener e s))) CACHE_NAME = map_of (stores s) CACHE_NAME"
proof -
  let ?s1 = "emit (Called OpKeys) (emit (Log ''Service Worker: Activating...'') s)"
  let ?p = "purge e (listNamespaces s) ?s1"
  have "\<not> (\<exists>err. promise_all (fst ?p) = Inl err)"
    using assms(3) by (simp add: purge_rejects_iff)
  then obtain vs where vs: "promise_all (fst ?p) = Inr vs"
    by (cases "promise_all (fst ?p)") auto
  have a: "activate_listener e s =
      (Inr (), emit ClientsClaim (emit (Log ''Service Worker: Activation complete'') (snd ?p)))"
    by (simp add: activate_listener_eq [OF assms(2)] Let_def vs)
  have "stores (snd ?p) = filter (\<lambda>nc. \<not> (fst nc \<in> set (listNamespaces s) \<and> fst nc \<noteq> CACHE_NAME
                          \<and> \<not> faults e (OpDelete (fst nc)))) (stores s)"
    by (simp add: stores_purge stores_emit)
  also have "\<dots> = filter (\<lambda>nc. fst nc = CACHE_NAME) (stores s)"
    using assms(3) by (auto simp: listNamespaces_def intro!: filter_cong)
  finally have st: "stores (snd (activate_listener e s)) = filter (\<lambda>nc. fst nc = CACHE_NAME) (stores s)"
    by (simp add: a stores_emit)
  have r: "fst (activate_listener e s) = Inr ()" by (simp add: a)
  show ?thesis
    using assms(1) current_namespace_only [of CACHE_NAME "stores s"]
      current_namespace_single [of "stores s" CACHE_NAME]
    by (simp add: r st listNamespaces_def map_of_filter_name)
qed

theorem activate_keeps_only_current_namespace_witness:
  "CACHE_NAME \<in> set (listNamespaces upgraded_world)
   \<and> listNamespaces upgraded_world = [''daily-reminder-v0'', ''notes-cache'', ''daily-reminder-v1'']
   \<and> listNamespaces (snd (activate_listener online_env upgraded_world)) = [''daily-reminder-v1'']"
proof -
  have l: "listNamespaces upgraded_world = [''daily-reminder-v0'', ''notes-cache'', ''daily-reminder-v1'']"
    by (simp add: listNamespaces_def upgraded_world_def CACHE_NAME_def)
  have h1: "CACHE_NAME \<in> set (listNamespaces upgraded_world)" by (simp add: l CACHE_NAME_def)
  have h2: "\<not> faults online_env OpKeys" by (simp add: online_env_def)
  have h3: "\<forall>n \<in> set (listNamespaces upgraded_world). \<not> faults online_env (OpDelete n)"
    by (simp add: online_env_def)
  have d: "distinct (listNamespaces upgraded_world)" by (simp add: l)
  from activate_keeps_only_current_namespace [OF h1 h2 h3] d l h1
  show ?thesis by (simp add: CACHE_NAME_def)
qed

text \<open>
  Claim C6 says that a deletion that fails is logged and skipped and that the activation
  still completes, claiming the open clients. With a storage that cannot delete
  \<open>daily-reminder-v0\<close>, the deletion of the other stale namespace does happen, but the
  promise given to \<open>waitUntil\<close> rejects, and the trace ends with the last deletion: no
  error is logged, ``Activation complete'' is not reached and \<open>clients.claim\<close> is not called.
\<close>

theorem failed_deletion_stops_activation_counterexample:
  "faults delete_fault_env (OpDelete ''daily-reminder-v0'')
   \<and> fst (activate_listener delete_fault_env upgraded_world)
       = Inl (StorageFailure (OpDelete ''daily-reminder-v0''))
   \<and> listNamespaces (snd (activate_listener delete_fault_env upgraded_world))
       = [''daily-reminder-v0'', ''daily-reminder-v1'']
   \<and> trace (snd (activate_listener delete_fault_env upgraded_world))
       = [Log ''Service Worker: Activating...'', Called OpKeys,
          Log ''Service Worker: Deleting old cache daily-reminder-v0'',
          Called (OpDelete ''daily-reminder-v0''),
          Log ''Service Worker: Deleting old cache notes-cache'',
          Called (OpDelete ''notes-cache'')]"
  by (simp add: activate_listener_def caches_keys_def caches_delete_def emit_def Let_def
      delete_fault_env_def upgraded_world_def listNamespaces_def CACHE_NAME_def)

lemma purge_events_quiet:
  "ClientsClaim \<notin> set (purge_events names) \<and> LogError m err \<notin> set (purge_events names)"
  by (induction names) auto

text \<open>
  Claim C6, amended. A deletion that fails does not stop the processing of the other
  stale namespaces: the deletion of each of them is attempted, those that succeed take
  effect, and the current namespace is kept. The failure is not caught: the promise given
  to \<open>waitUntil\<close> rejects, nothing is logged for the failure and control of the open clients
  is not claimed.
\<close>

theorem failed_deletion_rejects_activation:
  assumes "\<not> faults e OpKeys"
    and "n \<in> set (listNamespaces s)" and "n \<noteq> CACHE_NAME" and "faults e (OpDelete n)"
  shows "(\<exists>err. fst (activate_listener e s) = Inl err)
       \<and> stores (snd (activate_listener e s))
           = filter (\<lambda>nc. fst nc = CACHE_NAME \<or> faults e (OpDelete (fst nc))) (stores s)
       \<and> trace (snd (activate_listener e s))
           = trace s @ [Log ''Service Worker: Activating...'', Called OpKeys]
               @ purge_events (listNamespaces s)
       \<and> ClientsClaim \<notin> set (purge_events (listNamespaces s))
       \<and> (\<forall>m err. LogError m err \<notin> set (purge_events (listNamespaces s)))"
proof -
  let ?s1 = "emit (Called OpKeys) (emit (Log ''Service Worker: Activating...'') s)"
  let ?p = "purge e (listNamespaces s) ?s1"
  have "\<exists>err. promise_all (fst ?p) = Inl err"
    using assms(2,3,4) by (auto simp: purge_rejects_iff)
  then obtain err where err: "promise_all (fst ?p) = Inl err" by blast
  have a: "activate_listener e s = (Inl err, snd ?p)"
    by (simp add: activate_listener_eq [OF assms(1)] Let_def err)
  have "stores (snd ?p) = filter (\<lambda>nc. \<not> (fst nc \<in> set (listNamespaces s) \<and> fst nc \<noteq> CACHE_NAME
                          \<and> \<not> faults e (OpDelete (fst nc)))) (stores s)"
    by (simp add: stores_purge stores_emit)
  also have "\<dots> = filter (\<lambda>nc. fst nc = CACHE_NAME \<or> faults e (OpDelete (fst nc))) (stores s)"
    by (auto simp: listNamespaces_def intro!: filter_cong)
  finally have st: "stores (snd ?p)
      = filter (\<lambda>nc. fst nc = CACHE_NAME \<or> faults e (OpDelete (fst nc))) (stores s)" .
  have tr: "trace (snd ?p) = trace s @ [Log ''Service Worker: Activating...'', Called OpKeys]
               @ purge_events (listNamespaces s)"
    by (simp add: trace_purge trace_emit)
  have r: "\<exists>err. fst (activate_listener e s) = Inl err" by (simp add: a)
  have st': "stores (snd (activate_listener e s))
      = filter (\<lambda>nc. fst nc = CACHE_NAME \<or> faults e (OpDelete (fst nc))) (stores s)"
    by (simp add: a st)
  have tr': "trace (snd (activate_listener e s))
      = trace s @ [Log ''Service Worker: Activating...'', Called OpKeys]
               @ purge_events (listNamespaces s)"
    by (simp add: a tr)
  show ?thesis
    using purge_events_quiet r st' tr' by blast
qed

theorem failed_deletion_rejects_activation_witness:
  "\<not> faults delete_fault_env OpKeys
   \<and> ''daily-reminder-v0'' \<in> set (listNamespaces upgraded_world)
   \<and> ''daily-reminder-v0'' \<noteq> CACHE_NAME
   \<and> faults delete_fault_env (OpDelete ''daily-reminder-v0'')
   \<and> (\<exists>err. fst (activate_listener delete_fault_env upgraded_world) = Inl err)
   \<and> listNamespaces (snd (activate_listener delete_fault_env upgraded_world))
       = [''daily-reminder-v0'', ''daily-reminder-v1'']"
proof -
  have h1: "\<not> faults delete_fault_env OpKeys" by (simp add: delete_fault_env_def)
  have h2: "''daily-reminder-v0'' \<in> set (listNamespaces upgraded_world)"
    by (simp add: listNamespaces_def upgraded_world_def)
  have h3: "''daily-reminder-v0'' \<noteq> CACHE_NAME" by (simp add: CACHE_NAME_def)
  have h4: "faults delete_fault_env (OpDelete ''daily-reminder-v0'')"
    by (simp add: delete_fault_env_def)
  have f: "filter (\<lambda>nc. fst nc = CACHE_NAME \<or> faults delete_fault_env (OpDelete (fst nc)))
             (stores upgraded_world)
           = [(''daily-reminder-v0'', [((''GET'', ''./''), served ''old'')]),
              (CACHE_NAME, [((''GET'', ''./''), served ''new'')])]"
    by (simp add: upgraded_world_def delete_fault_env_def CACHE_NAME_def)
  from failed_deletion_rejects_activation [OF h1 h2 h3 h4] h1 h2 h3 h4
  show ?thesis by (simp add: listNamespaces_def f) (simp add: CACHE_NAME_def)
qed

end
